theory Spec2Isabelle
  imports Main "HOL-Library.Word"
begin

section \<open>Stopwatch on the LCD (Lab\_4-lcd/src/main.c)\<close>

text \<open>
  The firmware runs on an ATmega328P: \<^verbatim>\<open>uint8_t\<close> and \<^verbatim>\<open>uint16_t\<close> are
  8-bit and 16-bit words, \<^verbatim>\<open>int\<close> has 16 bits. The static variables of the two
  interrupt service routines are the state; what a routine sends to the display
  driver is a list of calls.
\<close>

type_synonym uint8_t = "8 word"
type_synonym uint16_t = "16 word"

subsection \<open>Calls to the display driver, the timers and the interrupt mask\<close>

datatype timer = TIM1 | TIM2

datatype ovf_period = OVF_16MS | OVF_1SEC

text \<open>
  One constructor per call or macro used by main.c. The timer macros of timer.h
  are modelled by their names: \<^verbatim>\<open>TIM1_OVF_1SEC\<close> is \<open>Tim_ovf TIM1 OVF_1SEC\<close>,
  \<^verbatim>\<open>TIM2_OVF_ENABLE\<close> is \<open>Tim_ovf_enable TIM2\<close>.
\<close>

datatype io =
    Lcd_init uint8_t
  | Lcd_command uint8_t
  | Lcd_data uint8_t
  | Lcd_gotoxy uint8_t uint8_t
  | Lcd_putc char
  | Lcd_puts string
  | Tim_ovf timer ovf_period
  | Tim_ovf_enable timer
  | Sei

subsection \<open>itoa and the conversion buffer\<close>

text \<open>The decimal digits of a natural number, most significant first.\<close>

fun dec_digits :: "nat \<Rightarrow> string" where
  "dec_digits n =
     (if n < 10 then [''0123456789'' ! n]
      else dec_digits (n div 10) @ [''0123456789'' ! (n mod 10)])"

declare dec_digits.simps [simp del]

text \<open>
  \<^verbatim>\<open>itoa(val, s, 10)\<close> of avr-libc: the bytes it stores from \<^verbatim>\<open>s[0]\<close> on are a
  minus sign for a negative value, the decimal digits, and the terminating NUL.
\<close>

definition itoa :: "int \<Rightarrow> char list" where
  "itoa val =
     (if val < 0 then CHR ''-'' # dec_digits (nat (- val)) else dec_digits (nat val))
     @ [CHR 0x00]"

text \<open>\<^verbatim>\<open>lcd_puts(s)\<close> sends the characters of \<^verbatim>\<open>s\<close> up to the first NUL.\<close>

definition c_str :: "char list \<Rightarrow> string" where
  "c_str bytes = takeWhile (\<lambda>c. c \<noteq> CHR 0x00) bytes"

text \<open>
  \<^verbatim>\<open>char string[2]\<close>: a store of more than two bytes runs past its end. C
  leaves that undefined. The model follows the device, where the bytes land in
  the memory after \<^verbatim>\<open>string\<close> and \<^verbatim>\<open>lcd_puts\<close> reads them back, and reports
  the overrun in the result of the handler.
\<close>

definition string_size :: nat where
  "string_size = 2"

definition overruns :: "char list \<Rightarrow> bool" where
  "overruns bytes = (string_size < length bytes)"

subsection \<open>ISR(TIMER2\_OVF\_vect): the stopwatch\<close>

record clock_state =
  no_of_overflows :: uint8_t
  tenths :: uint8_t
  seconds :: uint8_t
  minutes :: uint8_t
  secPwr :: uint16_t

definition clock_init :: clock_state where
  "clock_init = \<lparr>no_of_overflows = 0, tenths = 0, seconds = 0, minutes = 0, secPwr = 0\<rparr>"

text \<open>
  The label that \<^verbatim>\<open>switch (seconds)\<close> selects, and the assignment under it.
  \<^verbatim>\<open>seconds * seconds\<close> is computed in \<^verbatim>\<open>int\<close> and stored in a
  \<^verbatim>\<open>uint16_t\<close>: the low 16 bits of the product (the product fits \<^verbatim>\<open>int\<close>
  for every \<open>seconds\<close> up to 181).
\<close>

datatype switch_label = Case_0 | Case_60 | Default

definition switch_seconds :: "uint8_t \<Rightarrow> switch_label" where
  "switch_seconds sec = (if sec = 0 then Case_0 else if sec = 60 then Case_60 else Default)"

fun secPwr_under :: "switch_label \<Rightarrow> uint8_t \<Rightarrow> uint16_t" where
  "secPwr_under Case_0 sec = 0"
| "secPwr_under Case_60 sec = 0"
| "secPwr_under Default sec = ucast sec * ucast sec"

text \<open>
  Lines 156 to 188: the counters. The second component is the label the switch
  took, \<open>None\<close> when the switch was not executed.
\<close>

definition count :: "clock_state \<Rightarrow> clock_state \<times> switch_label option" where
  "count s0 =
     (let s1 = s0\<lparr>tenths := tenths s0 + 1\<rparr>;
          (s2, label) =
            (if tenths s1 > 9
             then (let s = s1\<lparr>tenths := 0, seconds := seconds s1 + 1\<rparr>;
                       l = switch_seconds (seconds s)
                   in (s\<lparr>secPwr := secPwr_under l (seconds s)\<rparr>, Some l))
             else (s1, None));
          s3 = (if seconds s2 > 59 then s2\<lparr>seconds := 0, minutes := minutes s2 + 1\<rparr> else s2);
          s4 = (if minutes s3 > 59 then s3\<lparr>minutes := 0\<rparr> else s3)
      in (s4, label))"

text \<open>
  Lines 191 to 225: the display. The arguments of \<^verbatim>\<open>itoa\<close> are converted to
  \<^verbatim>\<open>int\<close>: the 8-bit counters keep their value, \<^verbatim>\<open>secPwr\<close> is read as a
  signed 16-bit value. The second component tells whether one of the four
  conversions stored more bytes than \<^verbatim>\<open>string\<close> holds.
\<close>

definition render :: "clock_state \<Rightarrow> io list \<times> bool" where
  "render s =
     (let str_m = itoa (uint (minutes s));
          out_m = Lcd_gotoxy 1 0 #
            (if minutes s < 60 then [Lcd_putc CHR ''0'', Lcd_puts (c_str str_m)]
             else [Lcd_puts (c_str str_m)]) @
            [Lcd_putc CHR '':''];
          str_s = itoa (uint (seconds s));
          out_s =
            (if seconds s < 10 then [Lcd_putc CHR ''0'', Lcd_puts (c_str str_s)]
             else [Lcd_puts (c_str str_s)]) @
            [Lcd_putc CHR ''.''];
          str_t = itoa (uint (tenths s));
          out_t = [Lcd_puts (c_str str_t)];
          str_p = itoa (sint (secPwr s));
          out_p = [Lcd_gotoxy 12 0, Lcd_puts (c_str str_p)]
      in (out_m @ out_s @ out_t @ out_p,
          overruns str_m \<or> overruns str_s \<or> overruns str_t \<or> overruns str_p))"

record clock_result =
  after :: clock_state
  lcd :: "io list"
  overrun :: bool
  taken :: "switch_label option"

text \<open>
  One invocation: the statics after it, the calls to the display driver, whether
  a conversion overran \<^verbatim>\<open>string\<close>, and the label the switch took.
\<close>

definition TIMER2_OVF_vect :: "clock_state \<Rightarrow> clock_result" where
  "TIMER2_OVF_vect s0 =
     (let s1 = s0\<lparr>no_of_overflows := no_of_overflows s0 + 1\<rparr>
      in if no_of_overflows s1 \<ge> 6
         then (let (s2, l) = count (s1\<lparr>no_of_overflows := 0\<rparr>);
                   (out, ovr) = render s2
               in \<lparr>after = s2, lcd = out, overrun = ovr, taken = l\<rparr>)
         else \<lparr>after = s1, lcd = [], overrun = False, taken = None\<rparr>)"

text \<open>The state before the \<open>n+1\<close>-th invocation, from power-on.\<close>

definition clock_run :: "nat \<Rightarrow> clock_state" where
  "clock_run n = ((\<lambda>s. after (TIMER2_OVF_vect s)) ^^ n) clock_init"

subsection \<open>ISR(TIMER1\_OVF\_vect): the progress bar\<close>

record bar_state =
  prgrsBarLgth :: uint8_t
  i :: uint8_t

definition bar_init :: bar_state where
  "bar_init = \<lparr>prgrsBarLgth = 0, i = 0\<rparr>"

text \<open>
  \<^verbatim>\<open>for (i = 0; i < prgrsBarLgth; i++) lcd_putc(0xff);\<close> from the current
  value of the static \<^verbatim>\<open>i\<close>: its final value and the calls made.
\<close>

function bar_loop :: "uint8_t \<Rightarrow> uint8_t \<Rightarrow> uint8_t \<times> io list" where
  "bar_loop len j =
     (if j < len
      then (let (j', out) = bar_loop len (j + 1) in (j', Lcd_putc (CHR 0xFF) # out))
      else (j, []))"
  by pat_completeness auto
termination
proof (relation "measure (\<lambda>(len, j). unat len - unat j)")
  show "wf (measure (\<lambda>(len, j). unat len - unat j))"
    by simp
next
  fix len j :: uint8_t
  assume "j < len"
  then have "unat j < unat len"
    by (simp add: word_less_nat_alt)
  moreover have "unat len < 2 ^ LENGTH(8)"
    by (rule unsigned_less)
  ultimately have "unat j + 1 < 2 ^ LENGTH(8)"
    by simp
  then have "unat (j + 1) = unat j + 1"
    by (simp add: unat_word_ariths)
  with \<open>unat j < unat len\<close> show "((len, j + 1), (len, j)) \<in> measure (\<lambda>(len, j). unat len - unat j)"
    by simp
qed

declare bar_loop.simps [simp del]

definition TIMER1_OVF_vect :: "bar_state \<Rightarrow> bar_state \<times> io list" where
  "TIMER1_OVF_vect s0 =
     (let s1 = (if prgrsBarLgth s0 > 4 then s0\<lparr>prgrsBarLgth := 0\<rparr> else s0);
          s2 = s1\<lparr>prgrsBarLgth := prgrsBarLgth s1 + 1\<rparr>;
          (j, out) = bar_loop (prgrsBarLgth s2) 0
      in (s2\<lparr>i := j\<rparr>, Lcd_gotoxy 0 1 # out))"

text \<open>The state before the \<open>k+1\<close>-th invocation, from power-on.\<close>

definition bar_run :: "nat \<Rightarrow> bar_state" where
  "bar_run k = ((\<lambda>s. fst (TIMER1_OVF_vect s)) ^^ k) bar_init"

subsection \<open>main: the start-up sequence\<close>

text \<open>
  lcd.h is not part of the sources: the three constants main.c takes from it are
  parameters. \<open>hd44780\<close> holds the values of Peter Fleury's library, for
  evaluation at a concrete input.
\<close>

record lcd_consts =
  LCD_DISP_ON :: uint8_t
  LCD_CGRAM :: nat
  LCD_DDRAM :: nat

definition hd44780 :: lcd_consts where
  "hd44780 = \<lparr>LCD_DISP_ON = 0x0C, LCD_CGRAM = 6, LCD_DDRAM = 7\<rparr>"

definition N_CHARS :: nat where
  "N_CHARS = 6"

text \<open>The initialiser of \<^verbatim>\<open>customChar\<close> (0b10000 is 0x10, and so on).\<close>

definition customChar_init :: "uint8_t list" where
  "customChar_init =
     [0x10, 0x10, 0x10, 0x10, 0x10, 0x10, 0x10, 0x10,
      0x18, 0x18, 0x18, 0x18, 0x18, 0x18, 0x18, 0x18,
      0x1C, 0x1C, 0x1C, 0x1C, 0x1C, 0x1C, 0x1C, 0x1C,
      0x1E, 0x1E, 0x1E, 0x1E, 0x1E, 0x1E, 0x1E, 0x1E]"

text \<open>
  \<^verbatim>\<open>uint8_t customChar[N_CHARS*8] = {...}\<close>: the elements the initialiser does
  not give are zero.
\<close>

definition customChar :: "uint8_t list" where
  "customChar = customChar_init @ replicate (N_CHARS * 8 - length customChar_init) 0"

text \<open>
  \<^verbatim>\<open>for (uint8_t i = 0; i < N_CHARS*8; i++) lcd_data(customChar[i]);\<close> from
  a value of \<^verbatim>\<open>i\<close>; the comparison is made in \<^verbatim>\<open>int\<close>.
\<close>

function upload :: "uint8_t \<Rightarrow> io list" where
  "upload j =
     (if unat j < N_CHARS * 8 then Lcd_data (customChar ! unat j) # upload (j + 1) else [])"
  by pat_completeness auto
termination
proof (relation "measure (\<lambda>j. N_CHARS * 8 - unat j)")
  show "wf (measure (\<lambda>j. N_CHARS * 8 - unat j))"
    by simp
next
  fix j :: uint8_t
  assume less: "unat j < N_CHARS * 8"
  then have "unat j + 1 < 2 ^ LENGTH(8)"
    by (simp add: N_CHARS_def)
  then have "unat (j + 1) = unat j + 1"
    by (simp add: unat_word_ariths)
  with less show "(j + 1, j) \<in> measure (\<lambda>j. N_CHARS * 8 - unat j)"
    by simp
qed

declare upload.simps [simp del]

text \<open>What main does before it enters its empty loop.\<close>

definition main :: "lcd_consts \<Rightarrow> io list" where
  "main k =
     [Lcd_init (LCD_DISP_ON k),
      Lcd_command (push_bit (LCD_CGRAM k) 1)] @
     upload 0 @
     [Lcd_command (push_bit (LCD_DDRAM k) 1),
      Lcd_gotoxy 7 1,
      Lcd_putc (CHR 0x00), Lcd_putc (CHR 0x01), Lcd_putc (CHR 0x02), Lcd_putc (CHR 0x03),
      Tim_ovf TIM1 OVF_1SEC, Tim_ovf_enable TIM1,
      Tim_ovf TIM2 OVF_16MS, Tim_ovf_enable TIM2,
      Sei]"

subsection \<open>Both handlers on one device\<close>

record firmware_state =
  clock :: clock_state
  bar :: bar_state

text \<open>The routine that the overflow interrupt of a timer runs.\<close>

fun ISR :: "timer \<Rightarrow> firmware_state \<Rightarrow> firmware_state \<times> io list" where
  "ISR TIM2 s = (let r = TIMER2_OVF_vect (clock s) in (s\<lparr>clock := after r\<rparr>, lcd r))"
| "ISR TIM1 s = (let (b, out) = TIMER1_OVF_vect (bar s) in (s\<lparr>bar := b\<rparr>, out))"

datatype handler = Stopwatch | Progress_bar

fun source_of :: "handler \<Rightarrow> timer" where
  "source_of Stopwatch = TIM2"
| "source_of Progress_bar = TIM1"

subsection \<open>Reading a list of calls\<close>

text \<open>The overflow period a timer was last given.\<close>

fun ovf_period_of :: "timer \<Rightarrow> io list \<Rightarrow> ovf_period option" where
  "ovf_period_of t [] = None"
| "ovf_period_of t (Tim_ovf t' p # r) =
     (case ovf_period_of t r of
        Some q \<Rightarrow> Some q
      | None \<Rightarrow> if t' = t then Some p else None)"
| "ovf_period_of t (_ # r) = ovf_period_of t r"

text \<open>The bytes sent with \<^verbatim>\<open>lcd_data\<close>.\<close>

fun data_bytes :: "io list \<Rightarrow> uint8_t list" where
  "data_bytes [] = []"
| "data_bytes (Lcd_data b # r) = b # data_bytes r"
| "data_bytes (_ # r) = data_bytes r"

text \<open>
  The command the controller received last when \<^verbatim>\<open>sei()\<close> is called;
  \<open>None\<close> when there was none or \<^verbatim>\<open>sei()\<close> is not called.
\<close>

fun command_at_sei :: "uint8_t option \<Rightarrow> io list \<Rightarrow> uint8_t option" where
  "command_at_sei cur [] = None"
| "command_at_sei cur (Sei # r) = cur"
| "command_at_sei cur (Lcd_command c # r) = command_at_sei (Some c) r"
| "command_at_sei cur (_ # r) = command_at_sei cur r"

text \<open>The characters written from the head of a list of calls up to the next
  positioning of the cursor.\<close>

fun run_text :: "io list \<Rightarrow> string" where
  "run_text [] = []"
| "run_text (Lcd_gotoxy x y # r) = []"
| "run_text (Lcd_putc c # r) = c # run_text r"
| "run_text (Lcd_puts str # r) = str @ run_text r"
| "run_text (_ # r) = run_text r"

text \<open>Each positioning of the cursor (column, row) with the text written there.\<close>

fun written :: "io list \<Rightarrow> ((uint8_t \<times> uint8_t) \<times> string) list" where
  "written [] = []"
| "written (Lcd_gotoxy x y # r) = ((x, y), run_text r) # written r"
| "written (_ # r) = written r"

section \<open>Auxiliary facts\<close>

subsection \<open>Small numbers as 8-bit words\<close>

lemma u8_unat_of_nat: "x < 256 \<Longrightarrow> unat (of_nat x :: uint8_t) = x"
  by (simp add: unat_of_nat)

lemma u8_of_nat_less: "x < 256 \<Longrightarrow> y < 256 \<Longrightarrow> ((of_nat x :: uint8_t) < of_nat y) = (x < y)"
  by (simp add: word_less_nat_alt unat_of_nat)

lemma u8_of_nat_le: "x < 256 \<Longrightarrow> y < 256 \<Longrightarrow> ((of_nat x :: uint8_t) \<le> of_nat y) = (x \<le> y)"
  by (simp add: word_le_nat_alt unat_of_nat)

lemma u8_of_nat_eq: "x < 256 \<Longrightarrow> y < 256 \<Longrightarrow> ((of_nat x :: uint8_t) = of_nat y) = (x = y)"
  by (metis u8_unat_of_nat)

lemma u8_ucast16: "x < 256 \<Longrightarrow> (ucast (of_nat x :: uint8_t) :: uint16_t) = of_nat x"
  by (simp add: unsigned_of_nat take_bit_nat_eq_self)

lemma inc_gt9: "x < 255 \<Longrightarrow> ((9 :: uint8_t) < of_nat x + 1) = (9 \<le> x)"
  using u8_of_nat_less [of 9 "Suc x"] by (simp add: add.commute) linarith?

lemma inc_ge6: "x < 255 \<Longrightarrow> ((6 :: uint8_t) \<le> of_nat x + 1) = (5 \<le> x)"
  using u8_of_nat_le [of 6 "Suc x"] by (simp add: add.commute) linarith?

lemma inc_gt59: "x < 255 \<Longrightarrow> ((59 :: uint8_t) < of_nat x + 1) = (59 \<le> x)"
  using u8_of_nat_less [of 59 "Suc x"] by (simp add: add.commute) linarith?

lemma gt59: "x < 256 \<Longrightarrow> ((59 :: uint8_t) < of_nat x) = (59 < x)"
  using u8_of_nat_less [of 59 x] by simp

lemma inc_eq60: "x < 255 \<Longrightarrow> ((of_nat x :: uint8_t) + 1 = 60) = (x = 59)"
  using u8_of_nat_eq [of "Suc x" 60] by (simp add: add.commute)

lemma inc_neq0: "x < 255 \<Longrightarrow> (of_nat x :: uint8_t) + 1 \<noteq> 0"
  using u8_of_nat_eq [of "Suc x" 0] by (simp add: add.commute)

lemma inc_ucast16: "x < 255 \<Longrightarrow> (ucast ((of_nat x :: uint8_t) + 1) :: uint16_t) = of_nat x + 1"
  using u8_ucast16 [of "Suc x"] by (simp add: add.commute)

lemma div_Suc_k: "0 < k \<Longrightarrow> Suc n div k = (if n mod k = k - 1 then Suc (n div k) else n div k)"
  by (auto simp: div_Suc mod_Suc)

lemma mod_Suc_k: "0 < k \<Longrightarrow> Suc n mod k = (if n mod k = k - 1 then 0 else Suc (n mod k))"
  by (auto simp: mod_Suc)

subsection \<open>One invocation of the stopwatch handler on counters in range\<close>

lemma count_closed:
  assumes "b < 10" "c < 60" "d < 60"
  shows "count \<lparr>no_of_overflows = k, tenths = of_nat b, seconds = of_nat c,
                 minutes = of_nat d, secPwr = p\<rparr> =
    (if b = 9 then
       (if c = 59 then
          (\<lparr>no_of_overflows = k, tenths = 0, seconds = 0,
            minutes = (if d = 59 then 0 else of_nat d + 1), secPwr = 0\<rparr>, Some Case_60)
        else (\<lparr>no_of_overflows = k, tenths = 0, seconds = of_nat c + 1,
            minutes = of_nat d, secPwr = (of_nat c + 1) * (of_nat c + 1)\<rparr>, Some Default))
     else (\<lparr>no_of_overflows = k, tenths = of_nat b + 1, seconds = of_nat c,
            minutes = of_nat d, secPwr = p\<rparr>, None))"
  using assms
  by (simp add: count_def Let_def switch_seconds_def inc_gt9 inc_gt59 inc_eq60 inc_neq0
      inc_ucast16 gt59)

lemma isr_after:
  assumes "a < 6"
  shows "after (TIMER2_OVF_vect \<lparr>no_of_overflows = of_nat a, tenths = t, seconds = s,
                 minutes = m, secPwr = p\<rparr>) =
    (if a = 5 then fst (count \<lparr>no_of_overflows = 0, tenths = t, seconds = s,
                 minutes = m, secPwr = p\<rparr>)
     else \<lparr>no_of_overflows = of_nat a + 1, tenths = t, seconds = s,
                 minutes = m, secPwr = p\<rparr>)"
  using assms
  by (simp add: TIMER2_OVF_vect_def Let_def inc_ge6 split: prod.splits)

lemma isr_taken:
  assumes "a < 6"
  shows "taken (TIMER2_OVF_vect \<lparr>no_of_overflows = of_nat a, tenths = t, seconds = s,
                 minutes = m, secPwr = p\<rparr>) =
    (if a = 5 then snd (count \<lparr>no_of_overflows = 0, tenths = t, seconds = s,
                 minutes = m, secPwr = p\<rparr>)
     else None)"
  using assms
  by (simp add: TIMER2_OVF_vect_def Let_def inc_ge6 split: prod.splits)

subsection \<open>The stopwatch after \<open>n\<close> invocations\<close>

lemma clock_run_Suc: "clock_run (Suc n) = after (TIMER2_OVF_vect (clock_run n))"
  by (simp add: clock_run_def)

lemma clock_run_nested:
  "clock_run n =
     \<lparr>no_of_overflows = of_nat (n mod 6), tenths = of_nat (n div 6 mod 10),
      seconds = of_nat (n div 6 div 10 mod 60),
      minutes = of_nat (n div 6 div 10 div 60 mod 60),
      secPwr = of_nat (n div 6 div 10 mod 60 * (n div 6 div 10 mod 60))\<rparr>"
proof (induction n)
  case 0
  show ?case by (simp add: clock_run_def clock_init_def)
next
  case (Suc n)
  define a where "a = n mod 6"
  define b where "b = n div 6 mod 10"
  define c where "c = n div 6 div 10 mod 60"
  define d where "d = n div 6 div 10 div 60 mod 60"
  have bounds: "a < 6" "b < 10" "c < 60" "d < 60"
    by (simp_all add: a_def b_def c_def d_def)
  have a': "Suc n mod 6 = (if a = 5 then 0 else Suc a)"
    by (simp add: mod_Suc_k a_def)
  have n6: "Suc n div 6 = (if a = 5 then Suc (n div 6) else n div 6)"
    by (simp add: div_Suc_k a_def)
  have b': "Suc n div 6 mod 10 = (if a = 5 then (if b = 9 then 0 else Suc b) else b)"
    by (auto simp: n6 mod_Suc_k a_def b_def)
  have n60: "Suc n div 6 div 10 =
      (if a = 5 \<and> b = 9 then Suc (n div 6 div 10) else n div 6 div 10)"
    by (auto simp: n6 div_Suc_k a_def b_def)
  have c': "Suc n div 6 div 10 mod 60 =
      (if a = 5 \<and> b = 9 then (if c = 59 then 0 else Suc c) else c)"
    by (auto simp: n60 mod_Suc_k a_def b_def c_def)
  have n3600: "Suc n div 6 div 10 div 60 =
      (if a = 5 \<and> b = 9 \<and> c = 59 then Suc (n div 6 div 10 div 60)
       else n div 6 div 10 div 60)"
    by (auto simp: n60 div_Suc_k a_def b_def c_def)
  have d': "Suc n div 6 div 10 div 60 mod 60 =
      (if a = 5 \<and> b = 9 \<and> c = 59 then (if d = 59 then 0 else Suc d) else d)"
    by (auto simp: n3600 mod_Suc_k a_def b_def c_def d_def)
  have IH: "clock_run n = \<lparr>no_of_overflows = of_nat a, tenths = of_nat b,
      seconds = of_nat c, minutes = of_nat d, secPwr = of_nat (c * c)\<rparr>"
    unfolding Suc.IH a_def b_def c_def d_def ..
  have step: "clock_run (Suc n) =
     (if a = 5 then
       (if b = 9 then
         (if c = 59 then
            \<lparr>no_of_overflows = 0, tenths = 0, seconds = 0,
             minutes = (if d = 59 then 0 else of_nat d + 1), secPwr = 0\<rparr>
          else \<lparr>no_of_overflows = 0, tenths = 0, seconds = of_nat c + 1,
             minutes = of_nat d, secPwr = (of_nat c + 1) * (of_nat c + 1)\<rparr>)
        else \<lparr>no_of_overflows = 0, tenths = of_nat b + 1, seconds = of_nat c,
             minutes = of_nat d, secPwr = of_nat (c * c)\<rparr>)
      else \<lparr>no_of_overflows = of_nat a + 1, tenths = of_nat b, seconds = of_nat c,
             minutes = of_nat d, secPwr = of_nat (c * c)\<rparr>)"
    unfolding clock_run_Suc IH
    using bounds by (simp add: isr_after count_closed)
  show ?case
    unfolding step a' b' c' d'
    by (simp add: algebra_simps)
qed

lemma clock_run_closed:
  "clock_run n =
     \<lparr>no_of_overflows = of_nat (n mod 6), tenths = of_nat (n div 6 mod 10),
      seconds = of_nat (n div 60 mod 60), minutes = of_nat (n div 3600 mod 60),
      secPwr = of_nat (n div 60 mod 60 * (n div 60 mod 60))\<rparr>"
proof -
  have "n div 6 div 10 = n div 60" "n div 6 div 10 div 60 = n div 3600"
    by (simp_all add: div_mult2_eq [symmetric])
  then show ?thesis
    using clock_run_nested [of n] by simp
qed

subsection \<open>When the stopwatch handler does its work\<close>

lemma render_nonempty: "fst (render s) \<noteq> []"
  by (simp add: render_def Let_def)

lemma isr_fires:
  assumes "6 \<le> no_of_overflows s + 1"
  shows "TIMER2_OVF_vect s =
    \<lparr>after = fst (count (s\<lparr>no_of_overflows := 0\<rparr>)),
     lcd = fst (render (fst (count (s\<lparr>no_of_overflows := 0\<rparr>)))),
     overrun = snd (render (fst (count (s\<lparr>no_of_overflows := 0\<rparr>)))),
     taken = snd (count (s\<lparr>no_of_overflows := 0\<rparr>))\<rparr>"
  using assms by (simp add: TIMER2_OVF_vect_def Let_def split: prod.splits)

lemma isr_idle:
  assumes "\<not> 6 \<le> no_of_overflows s + 1"
  shows "TIMER2_OVF_vect s =
    \<lparr>after = s\<lparr>no_of_overflows := no_of_overflows s + 1\<rparr>, lcd = [], overrun = False,
     taken = None\<rparr>"
  using assms by (simp add: TIMER2_OVF_vect_def Let_def)

lemma clock_run_fires: "(6 \<le> no_of_overflows (clock_run n) + 1) = (6 dvd Suc n)"
proof -
  have "n mod 6 < 255"
    using mod_less_divisor [of 6 n] by linarith
  then have "(6 \<le> no_of_overflows (clock_run n) + 1) = (5 \<le> n mod 6)"
    by (simp add: clock_run_closed inc_ge6)
  also have "\<dots> = (6 dvd Suc n)"
    by presburger
  finally show ?thesis .
qed

lemma count_tenths_changes:
  assumes "tenths s \<le> 9"
  shows "tenths (fst (count s)) \<noteq> tenths s"
proof -
  define b where "b = unat (tenths s)"
  have b: "b < 10" "tenths s = of_nat b"
    using assms by (simp_all add: b_def word_le_nat_alt)
  then have "b < 255" by simp
  have "tenths (fst (count s)) = (if 9 \<le> b then 0 else of_nat b + 1)"
    using \<open>b < 255\<close> by (simp add: count_def Let_def b(2) inc_gt9 split: prod.splits)
  moreover have "(of_nat b :: uint8_t) + 1 \<noteq> of_nat b"
    by simp
  moreover have "9 \<le> b \<Longrightarrow> (of_nat b :: uint8_t) \<noteq> 0"
    using u8_of_nat_eq [of b 0] b(1) by simp
  ultimately show ?thesis
    by (simp add: b(2))
qed

lemma clock_run_tenths: "tenths (clock_run n) \<le> 9"
proof -
  have "n div 6 mod 10 < 256" "n div 6 mod 10 \<le> 9"
    using mod_less_divisor [of 10 "n div 6"] by linarith+
  then show ?thesis
    using u8_of_nat_le [of "n div 6 mod 10" 9] by (simp add: clock_run_closed)
qed

subsection \<open>Counters in range\<close>

lemma u8_le_numeral:
  fixes w :: uint8_t
  shows "(w \<le> 9) = (unat w \<le> 9)" "(w \<le> 59) = (unat w \<le> 59)" "(w \<le> 8) = (unat w \<le> 8)"
    "(w < 59) = (unat w < 59)" "(w = 9) = (unat w = 9)" "(w = 59) = (unat w = 59)"
  by (simp_all add: word_le_nat_alt word_less_nat_alt word_unat_eq_iff)

lemma clock_run_in_range:
  "tenths (clock_run n) \<le> 9 \<and> seconds (clock_run n) \<le> 59 \<and> minutes (clock_run n) \<le> 59"
proof -
  have "n div 6 mod 10 \<le> 9" "n div 60 mod 60 \<le> 59" "n div 3600 mod 60 \<le> 59"
    using mod_less_divisor [of 10 "n div 6"] mod_less_divisor [of 60 "n div 60"]
      mod_less_divisor [of 60 "n div 3600"] by linarith+
  then show ?thesis
    using u8_of_nat_le [of "n div 6 mod 10" 9] u8_of_nat_le [of "n div 60 mod 60" 59]
      u8_of_nat_le [of "n div 3600 mod 60" 59]
    by (simp add: clock_run_closed)
qed

subsection \<open>The square of the seconds and the switch\<close>

lemma u16_of_nat_eq_0: "x < 65536 \<Longrightarrow> ((of_nat x :: uint16_t) = 0) = (x = 0)"
proof -
  assume "x < 65536"
  then have u: "unat (of_nat x :: uint16_t) = x"
    by (simp add: unat_of_nat)
  show ?thesis
  proof
    assume "(of_nat x :: uint16_t) = 0"
    then have "unat (of_nat x :: uint16_t) = 0"
      by simp
    with u show "x = 0"
      by simp
  next
    assume "x = 0"
    then show "(of_nat x :: uint16_t) = 0"
      by simp
  qed
qed

lemma square_small: "c < 60 \<Longrightarrow> c * c < (65536 :: nat)"
proof -
  assume "c < 60"
  then have "c * c \<le> 59 * 59"
    by (intro mult_le_mono) simp_all
  then show ?thesis by simp
qed

lemma isr_secPwr:
  "secPwr (after (TIMER2_OVF_vect s)) =
     (if 6 \<le> no_of_overflows s + 1 \<and> 9 < tenths s + 1
      then (if seconds s + 1 = 0 \<or> seconds s + 1 = 60 then 0
            else ucast (seconds s + 1) * ucast (seconds s + 1))
      else secPwr s)"
  by (simp add: TIMER2_OVF_vect_def count_def Let_def switch_seconds_def split: prod.splits)

lemma isr_taken_any:
  "taken (TIMER2_OVF_vect s) =
     (if 6 \<le> no_of_overflows s + 1 \<and> 9 < tenths s + 1
      then Some (switch_seconds (seconds s + 1)) else None)"
  by (simp add: TIMER2_OVF_vect_def count_def Let_def split: prod.splits)

lemma clock_run_seconds_Suc:
  "Suc n div 60 mod 60 = n div 60 mod 60 \<or>
   Suc n div 60 mod 60 = (if n div 60 mod 60 = 59 then 0 else Suc (n div 60 mod 60))"
  by (simp add: div_Suc_k mod_Suc_k)

lemma clock_run_seconds: "seconds (clock_run n) = of_nat (n div 60 mod 60)"
  by (simp add: clock_run_closed)

lemma clock_run_secPwr: "secPwr (clock_run n) = of_nat (n div 60 mod 60 * (n div 60 mod 60))"
  by (simp add: clock_run_closed)

lemma clock_run_seconds_eq: "k < 256 \<Longrightarrow> (seconds (clock_run n) = of_nat k) = (n div 60 mod 60 = k)"
proof -
  assume "k < 256"
  moreover have "n div 60 mod 60 < 256"
    using mod_less_divisor [of 60 "n div 60"] by linarith
  ultimately show ?thesis
    by (simp add: clock_run_seconds u8_of_nat_eq)
qed

lemma clock_run_secPwr_0: "(secPwr (clock_run n) = 0) = (n div 60 mod 60 = 0)"
  using u16_of_nat_eq_0 [OF square_small [of "n div 60 mod 60"]]
  by (simp add: clock_run_secPwr)

lemma clock_run_taken:
  "taken (TIMER2_OVF_vect (clock_run n)) =
     (if n mod 6 = 5 \<and> n div 6 mod 10 = 9
      then (if n div 60 mod 60 = 59 then Some Case_60 else Some Default)
      else None)"
proof -
  have bounds: "n mod 6 < 6" "n div 6 mod 10 < 10" "n div 60 mod 60 < 60"
    "n div 3600 mod 60 < 60"
    by simp_all
  have "taken (TIMER2_OVF_vect (clock_run n)) =
      (if n mod 6 = 5
       then snd (count \<lparr>no_of_overflows = 0, tenths = of_nat (n div 6 mod 10),
              seconds = of_nat (n div 60 mod 60), minutes = of_nat (n div 3600 mod 60),
              secPwr = of_nat (n div 60 mod 60 * (n div 60 mod 60))\<rparr>)
       else None)"
    unfolding clock_run_closed using bounds(1) by (rule isr_taken)
  also have "snd (count \<lparr>no_of_overflows = 0, tenths = of_nat (n div 6 mod 10),
              seconds = of_nat (n div 60 mod 60), minutes = of_nat (n div 3600 mod 60),
              secPwr = of_nat (n div 60 mod 60 * (n div 60 mod 60))\<rparr>) =
      (if n div 6 mod 10 = 9
       then (if n div 60 mod 60 = 59 then Some Case_60 else Some Default)
       else None)"
    unfolding count_closed [OF bounds(2-4)] by simp
  finally show ?thesis
    by simp
qed

subsection \<open>The progress bar after \<open>k\<close> invocations\<close>

lemma bar_loop_from:
  "j \<le> len \<Longrightarrow> bar_loop len j = (len, replicate (unat len - unat j) (Lcd_putc (CHR 0xFF)))"
proof (induction len j rule: bar_loop.induct)
  case (1 len j)
  show ?case
  proof (cases "j < len")
    case True
    then have lt: "unat j < unat len"
      by (simp add: word_less_nat_alt)
    moreover have "unat len < 2 ^ LENGTH(8)"
      by (rule unsigned_less)
    ultimately have "unat j + 1 < 2 ^ LENGTH(8)"
      by simp
    then have suc: "unat (j + 1) = unat j + 1"
      by (simp add: unat_word_ariths)
    with lt have "j + 1 \<le> len"
      by (simp add: word_le_nat_alt)
    from "1.IH" [OF True this] have
      "bar_loop len (j + 1) = (len, replicate (unat len - unat (j + 1)) (Lcd_putc (CHR 0xFF)))" .
    moreover have "unat len - unat j = Suc (unat len - unat (j + 1))"
      using lt suc by simp
    ultimately show ?thesis
      using True by (simp add: bar_loop.simps [of len j])
  next
    case False
    with "1.prems" have "j = len"
      by simp
    then show ?thesis
      by (simp add: bar_loop.simps [of len len])
  qed
qed

lemma bar_step:
  assumes "m \<le> 5"
  shows "TIMER1_OVF_vect \<lparr>prgrsBarLgth = of_nat m, i = x\<rparr> =
    (\<lparr>prgrsBarLgth = of_nat (if 4 < m then 1 else m + 1),
      i = of_nat (if 4 < m then 1 else m + 1)\<rparr>,
     Lcd_gotoxy 0 1 # replicate (if 4 < m then 1 else m + 1) (Lcd_putc (CHR 0xFF)))"
proof -
  have gt: "((4 :: uint8_t) < of_nat m) = (4 < m)"
    using assms u8_of_nat_less [of 4 m] by simp
  show ?thesis
  proof (cases "4 < m")
    case True
    have "bar_loop (of_nat 1) 0 = (of_nat 1, replicate 1 (Lcd_putc (CHR 0xFF)))"
      using bar_loop_from [of 0 "of_nat 1"] by (simp only: u8_unat_of_nat) simp
    then have "bar_loop 1 0 = (1, [Lcd_putc (CHR 0xFF)])"
      by simp
    then show ?thesis
      using True by (simp add: TIMER1_OVF_vect_def Let_def gt)
  next
    case False
    have "Suc m < 256"
      using assms by simp
    then have "bar_loop (of_nat (Suc m)) 0 =
        (of_nat (Suc m), replicate (Suc m) (Lcd_putc (CHR 0xFF)))"
      using bar_loop_from [of 0 "of_nat (Suc m)"] by (simp only: u8_unat_of_nat) simp
    then have "bar_loop (of_nat m + 1) 0 =
        (of_nat m + 1, Lcd_putc (CHR 0xFF) # replicate m (Lcd_putc (CHR 0xFF)))"
      by (simp add: add.commute)
    then show ?thesis
      using False by (simp add: TIMER1_OVF_vect_def Let_def gt add.commute)
  qed
qed

lemma bar_run_Suc: "bar_run (Suc k) = fst (TIMER1_OVF_vect (bar_run k))"
  by (simp add: bar_run_def)

lemma bar_next_length:
  "(if 4 < k mod 5 + 1 then 1 else k mod 5 + 1 + 1) = Suc k mod 5 + (1 :: nat)"
  using mod_less_divisor [of 5 k] by (auto simp: mod_Suc_k)

lemma bar_run_closed:
  "bar_run (Suc k) = \<lparr>prgrsBarLgth = of_nat (k mod 5 + 1), i = of_nat (k mod 5 + 1)\<rparr>"
proof (induction k)
  case 0
  show ?case
    using bar_step [of 0 0] by (simp add: bar_run_Suc bar_run_def bar_init_def)
next
  case (Suc k)
  have "k mod 5 + 1 \<le> 5"
    using mod_less_divisor [of 5 k] by linarith
  from bar_step [OF this, unfolded bar_next_length] show ?case
    unfolding bar_run_Suc [of "Suc k"] Suc.IH by simp
qed

lemma bar_invocation:
  "TIMER1_OVF_vect (bar_run k) =
    (\<lparr>prgrsBarLgth = of_nat (k mod 5 + 1), i = of_nat (k mod 5 + 1)\<rparr>,
     Lcd_gotoxy 0 1 # replicate (k mod 5 + 1) (Lcd_putc (CHR 0xFF)))"
proof (cases k)
  case 0
  then show ?thesis
    using bar_step [of 0 0] by (simp add: bar_run_def bar_init_def)
next
  case (Suc j)
  have "j mod 5 + 1 \<le> 5"
    using mod_less_divisor [of 5 j] by linarith
  from bar_step [OF this, unfolded bar_next_length] show ?thesis
    unfolding Suc bar_run_closed by simp
qed

subsection \<open>Conversions of small values\<close>

lemma itoa_small:
  "itoa 0 = ''0'' @ [CHR 0x00]" "itoa 3 = ''3'' @ [CHR 0x00]" "itoa 5 = ''5'' @ [CHR 0x00]"
  "itoa 7 = ''7'' @ [CHR 0x00]" "itoa 10 = ''10'' @ [CHR 0x00]" "itoa 16 = ''16'' @ [CHR 0x00]"
  "itoa 49 = ''49'' @ [CHR 0x00]" "itoa 4 = ''4'' @ [CHR 0x00]"
  by (simp_all add: itoa_def dec_digits.simps)

lemma c_str_small:
  "c_str (itoa 0) = ''0''" "c_str (itoa 3) = ''3''" "c_str (itoa 5) = ''5''"
  "c_str (itoa 7) = ''7''" "c_str (itoa 10) = ''10''" "c_str (itoa 16) = ''16''"
  "c_str (itoa 49) = ''49''" "c_str (itoa 4) = ''4''"
  by (simp_all add: itoa_small c_str_def)

subsection \<open>The calls of main\<close>

lemma upload_all: "upload 0 = map Lcd_data customChar"
  by code_simp

lemma customChar_length: "length customChar = 48"
  by (simp add: customChar_def customChar_init_def N_CHARS_def)

lemma main_calls:
  "main k =
     [Lcd_init (LCD_DISP_ON k), Lcd_command (push_bit (LCD_CGRAM k) 1)] @
     map Lcd_data customChar @
     [Lcd_command (push_bit (LCD_DDRAM k) 1),
      Lcd_gotoxy 7 1,
      Lcd_putc (CHR 0x00), Lcd_putc (CHR 0x01), Lcd_putc (CHR 0x02), Lcd_putc (CHR 0x03),
      Tim_ovf TIM1 OVF_1SEC, Tim_ovf_enable TIM1,
      Tim_ovf TIM2 OVF_16MS, Tim_ovf_enable TIM2,
      Sei]"
  by (simp add: main_def upload_all)

lemma data_bytes_append: "data_bytes (xs @ ys) = data_bytes xs @ data_bytes ys"
  by (induction xs rule: data_bytes.induct) simp_all

lemma data_bytes_map: "data_bytes (map Lcd_data bs) = bs"
  by (induction bs) simp_all

lemma ovf_period_of_data: "ovf_period_of t (map Lcd_data bs @ r) = ovf_period_of t r"
  by (induction bs) simp_all

lemma command_at_sei_data: "command_at_sei cur (map Lcd_data bs @ r) = command_at_sei cur r"
  by (induction bs) simp_all

lemma main_data_bytes: "data_bytes (main k) = customChar"
  by (simp add: main_calls data_bytes_append data_bytes_map)

section \<open>The claims\<close>

text \<open>
  C1. The claim holds that every conversion stays within the two bytes of
  \<^verbatim>\<open>string\<close>. The code does not: invocation 240 from power-on steps the
  counters to \<open>seconds = 4\<close>, \<open>secPwr = 16\<close>, and the conversion of 16 stores
  the three bytes \<open>'1'\<close>, \<open>'6'\<close>, NUL.
\<close>

theorem string_overrun_at_invocation_240:
  "clock_run 239 =
     \<lparr>no_of_overflows = 5, tenths = 9, seconds = 3, minutes = 0, secPwr = 9\<rparr> \<and>
   after (TIMER2_OVF_vect (clock_run 239)) =
     \<lparr>no_of_overflows = 0, tenths = 0, seconds = 4, minutes = 0, secPwr = 16\<rparr> \<and>
   itoa (sint (16 :: uint16_t)) = ''16'' @ [CHR 0x00] \<and>
   string_size < length (itoa (sint (16 :: uint16_t))) \<and>
   overrun (TIMER2_OVF_vect (clock_run 239))"
proof -
  have run: "clock_run 239 =
      \<lparr>no_of_overflows = 5, tenths = 9, seconds = 3, minutes = 0, secPwr = 9\<rparr>"
    by (simp add: clock_run_closed)
  have "6 \<le> no_of_overflows (clock_run 239) + 1"
    by (simp add: run)
  note fires = isr_fires [OF this]
  have cnt: "fst (count ((clock_run 239)\<lparr>no_of_overflows := 0\<rparr>)) =
      \<lparr>no_of_overflows = 0, tenths = 0, seconds = 4, minutes = 0, secPwr = 16\<rparr>"
    using count_closed [of 9 3 0 0 9] by (simp add: run)
  have "snd (render \<lparr>no_of_overflows = 0, tenths = 0, seconds = 4, minutes = 0, secPwr = 16\<rparr>)"
    by (simp add: render_def Let_def overruns_def string_size_def itoa_small)
  then have ovr: "overrun (TIMER2_OVF_vect (clock_run 239))"
    by (simp add: fires cnt)
  have aft: "after (TIMER2_OVF_vect (clock_run 239)) =
      \<lparr>no_of_overflows = 0, tenths = 0, seconds = 4, minutes = 0, secPwr = 16\<rparr>"
    by (simp add: fires cnt)
  have bytes: "itoa (sint (16 :: uint16_t)) = ''16'' @ [CHR 0x00]"
    by (simp add: itoa_small)
  then have "string_size < length (itoa (sint (16 :: uint16_t)))"
    by (simp add: string_size_def)
  with run aft bytes ovr show ?thesis
    by blast
qed

text \<open>
  C2. \<open>secPwr\<close> is written only by an invocation that does the update and
  rolls the tenths over (the incremented \<open>tenths\<close> exceeds 9); every other
  invocation leaves it as it was. It is then set to 0 when the incremented
  \<open>seconds\<close> is 0 or 60, and to its square otherwise. In every state reached
  from power-on \<open>secPwr\<close> is the square of \<open>seconds\<close>: 3481 at 59 and 0 at 0.
  From one invocation to the next it falls from a nonzero value to 0 exactly when
  \<open>seconds\<close> goes from 59 to 0, so no nonzero value survives the minute
  boundary.
\<close>

theorem secPwr_recomputed_at_rollover:
  "(\<not> (6 \<le> no_of_overflows s + 1 \<and> 9 < tenths s + 1) \<longrightarrow>
      secPwr (after (TIMER2_OVF_vect s)) = secPwr s) \<and>
   (6 \<le> no_of_overflows s + 1 \<and> 9 < tenths s + 1 \<longrightarrow>
      secPwr (after (TIMER2_OVF_vect s)) =
        (if seconds s + 1 = 0 \<or> seconds s + 1 = 60 then 0
         else ucast (seconds s + 1) * ucast (seconds s + 1))) \<and>
   secPwr (clock_run n) = ucast (seconds (clock_run n)) * ucast (seconds (clock_run n)) \<and>
   (seconds (clock_run n) = 59 \<longrightarrow> secPwr (clock_run n) = 3481) \<and>
   (seconds (clock_run n) = 0 \<longrightarrow> secPwr (clock_run n) = 0) \<and>
   ((secPwr (clock_run n) \<noteq> 0 \<and> secPwr (clock_run (Suc n)) = 0) =
    (seconds (clock_run n) = 59 \<and> seconds (clock_run (Suc n)) = 0))"
proof -
  define c where "c = n div 60 mod 60"
  define c' where "c' = Suc n div 60 mod 60"
  have c: "c < 60"
    by (simp add: c_def)
  then have c256: "c < 256"
    by simp
  have sec: "seconds (clock_run n) = of_nat c" and pwr: "secPwr (clock_run n) = of_nat (c * c)"
    by (simp_all add: c_def clock_run_seconds clock_run_secPwr)
  have sq: "secPwr (clock_run n) = ucast (seconds (clock_run n)) * ucast (seconds (clock_run n))"
    unfolding sec pwr using c256 by (simp add: u8_ucast16)
  have e59: "(seconds (clock_run n) = 59) = (c = 59)"
    using clock_run_seconds_eq [of 59 n] by (simp add: c_def)
  have e0: "(seconds (clock_run n) = 0) = (c = 0)"
    using clock_run_seconds_eq [of 0 n] by (simp add: c_def)
  have e0': "(seconds (clock_run (Suc n)) = 0) = (c' = 0)"
    using clock_run_seconds_eq [of 0 "Suc n"] by (simp add: c'_def)
  have p0: "(secPwr (clock_run n) = 0) = (c = 0)"
    by (simp add: clock_run_secPwr_0 c_def)
  have p0': "(secPwr (clock_run (Suc n)) = 0) = (c' = 0)"
    by (simp add: clock_run_secPwr_0 c'_def)
  have "c' = c \<or> c' = (if c = 59 then 0 else Suc c)"
    unfolding c_def c'_def by (rule clock_run_seconds_Suc)
  then have wrap: "(c \<noteq> 0 \<and> c' = 0) = (c = 59 \<and> c' = 0)"
    by (auto split: if_splits)
  have "secPwr (clock_run n) = 3481" if "c = 59"
    using that by (simp add: pwr)
  moreover have "secPwr (clock_run n) = 0" if "c = 0"
    using that by (simp add: pwr)
  ultimately show ?thesis
    unfolding e59 e0 e0' p0 p0' using sq wrap by (simp add: isr_secPwr)
qed

theorem secPwr_recomputed_at_rollover_witness:
  "6 \<le> no_of_overflows (clock_run 3599) + 1 \<and> 9 < tenths (clock_run 3599) + 1 \<and>
   seconds (clock_run 3599) = 59 \<and> secPwr (clock_run 3599) = 3481 \<and>
   secPwr (after (TIMER2_OVF_vect (clock_run 3599))) = 0 \<and>
   seconds (clock_run (Suc 3599)) = 0 \<and> secPwr (clock_run (Suc 3599)) = 0 \<and>
   \<not> (6 \<le> no_of_overflows (clock_run 594) + 1 \<and> 9 < tenths (clock_run 594) + 1) \<and>
   secPwr (after (TIMER2_OVF_vect (clock_run 594))) = secPwr (clock_run 594)"
proof -
  have a: "clock_run 3599 =
      \<lparr>no_of_overflows = 5, tenths = 9, seconds = 59, minutes = 0, secPwr = 3481\<rparr>"
    by (simp add: clock_run_closed)
  have b: "clock_run 594 =
      \<lparr>no_of_overflows = 0, tenths = 9, seconds = 9, minutes = 0, secPwr = 81\<rparr>"
    by (simp add: clock_run_closed)
  have pa: "6 \<le> no_of_overflows (clock_run 3599) + 1 \<and> 9 < tenths (clock_run 3599) + 1"
    and sa: "seconds (clock_run 3599) = 59" "seconds (clock_run 3599) + 1 = 60"
    by (simp_all add: a)
  have pb: "\<not> (6 \<le> no_of_overflows (clock_run 594) + 1 \<and> 9 < tenths (clock_run 594) + 1)"
    by (simp add: b word_le_nat_alt)
  note at_a = secPwr_recomputed_at_rollover [of "clock_run 3599" 3599]
  note at_b = secPwr_recomputed_at_rollover [of "clock_run 594" 594]
  from at_a pa sa have "secPwr (after (TIMER2_OVF_vect (clock_run 3599))) = 0"
    by presburger
  moreover from at_a sa have "secPwr (clock_run 3599) = 3481"
    by blast
  moreover have "seconds (clock_run (Suc 3599)) = 0 \<and> secPwr (clock_run (Suc 3599)) = 0"
    by (simp add: clock_run_closed)
  moreover from at_b pb
  have "secPwr (after (TIMER2_OVF_vect (clock_run 594))) = secPwr (clock_run 594)"
    by blast
  ultimately show ?thesis
    using pa pb sa(1) by blast
qed

text \<open>
  C3. From the zero-initialised state, the update of the clock (counters and
  display) is executed by the invocations of the stopwatch handler whose number
  is a multiple of six and by no other. \<open>clock_run n\<close> is the state before
  invocation \<open>n + 1\<close>. When \<open>n + 1\<close> is not a multiple of six the handler
  calls nothing, and the only static it changes is \<open>no_of_overflows\<close>, by one.
  When it is, the counters are stepped (the tenths change) and the display calls
  of the rendering are made.
\<close>

theorem clock_update_every_sixth:
  "((lcd (TIMER2_OVF_vect (clock_run n)) \<noteq> []) = (6 dvd Suc n)) \<and>
   (\<not> 6 dvd Suc n \<longrightarrow>
      TIMER2_OVF_vect (clock_run n) =
        \<lparr>after = (clock_run n)\<lparr>no_of_overflows := no_of_overflows (clock_run n) + 1\<rparr>,
         lcd = [], overrun = False, taken = None\<rparr>) \<and>
   (6 dvd Suc n \<longrightarrow>
      after (TIMER2_OVF_vect (clock_run n)) =
        fst (count ((clock_run n)\<lparr>no_of_overflows := 0\<rparr>)) \<and>
      lcd (TIMER2_OVF_vect (clock_run n)) =
        fst (render (after (TIMER2_OVF_vect (clock_run n)))) \<and>
      tenths (after (TIMER2_OVF_vect (clock_run n))) \<noteq> tenths (clock_run n))"
proof (cases "6 dvd Suc n")
  case True
  then have "6 \<le> no_of_overflows (clock_run n) + 1"
    by (simp add: clock_run_fires)
  from isr_fires [OF this] count_tenths_changes [of "(clock_run n)\<lparr>no_of_overflows := 0\<rparr>"]
  show ?thesis
    using True clock_run_tenths [of n] by (simp add: render_nonempty)
next
  case False
  then have "\<not> 6 \<le> no_of_overflows (clock_run n) + 1"
    by (simp add: clock_run_fires)
  from isr_idle [OF this] show ?thesis
    using False by simp
qed

theorem clock_update_every_sixth_witness:
  "6 dvd Suc 5 \<and> lcd (TIMER2_OVF_vect (clock_run 5)) \<noteq> [] \<and>
   tenths (after (TIMER2_OVF_vect (clock_run 5))) \<noteq> tenths (clock_run 5) \<and>
   \<not> 6 dvd Suc 6 \<and> lcd (TIMER2_OVF_vect (clock_run 6)) = [] \<and>
   no_of_overflows (after (TIMER2_OVF_vect (clock_run 6))) = 1"
proof -
  have fifth: "6 dvd Suc 5"
    by simp
  have sixth: "\<not> 6 dvd Suc 6"
    by simp
  from clock_update_every_sixth [of 5] fifth
  have "lcd (TIMER2_OVF_vect (clock_run 5)) \<noteq> []"
    and "tenths (after (TIMER2_OVF_vect (clock_run 5))) \<noteq> tenths (clock_run 5)"
    by blast+
  moreover from clock_update_every_sixth [of 6] sixth
  have "TIMER2_OVF_vect (clock_run 6) =
      \<lparr>after = (clock_run 6)\<lparr>no_of_overflows := no_of_overflows (clock_run 6) + 1\<rparr>,
       lcd = [], overrun = False, taken = None\<rparr>"
    by blast
  then have "lcd (TIMER2_OVF_vect (clock_run 6)) = []"
    and "no_of_overflows (after (TIMER2_OVF_vect (clock_run 6))) = 1"
    by (simp_all add: clock_run_closed)
  ultimately show ?thesis
    using fifth sixth by blast
qed

text \<open>
  C4. An invocation that does the update (\<open>no_of_overflows\<close> reaches 6), on
  counters in their ranges, steps them as a cascade. With \<open>tenths\<close> in 0..8 it
  is incremented and \<open>seconds\<close>, \<open>minutes\<close> and \<open>secPwr\<close> keep their values.
  With \<open>tenths = 9\<close> it becomes 0 and \<open>seconds\<close> is incremented; when that
  takes \<open>seconds\<close> past 59 it becomes 0 and \<open>minutes\<close> is incremented; when
  that takes \<open>minutes\<close> past 59 it becomes 0, and nothing else is carried.
  Every state reached from power-on has its counters in these ranges
  (\<open>clock_run_in_range\<close>).
\<close>

theorem counters_cascade:
  assumes "6 \<le> no_of_overflows s + 1"
    and "tenths s \<le> 9" and "seconds s \<le> 59" and "minutes s \<le> 59"
  shows
   "(tenths s \<le> 8 \<longrightarrow>
       tenths (after (TIMER2_OVF_vect s)) = tenths s + 1 \<and>
       seconds (after (TIMER2_OVF_vect s)) = seconds s \<and>
       minutes (after (TIMER2_OVF_vect s)) = minutes s \<and>
       secPwr (after (TIMER2_OVF_vect s)) = secPwr s) \<and>
    (tenths s = 9 \<longrightarrow>
       tenths (after (TIMER2_OVF_vect s)) = 0 \<and>
       (seconds s < 59 \<longrightarrow>
          seconds (after (TIMER2_OVF_vect s)) = seconds s + 1 \<and>
          minutes (after (TIMER2_OVF_vect s)) = minutes s) \<and>
       (seconds s = 59 \<longrightarrow>
          seconds (after (TIMER2_OVF_vect s)) = 0 \<and>
          (minutes s < 59 \<longrightarrow> minutes (after (TIMER2_OVF_vect s)) = minutes s + 1) \<and>
          (minutes s = 59 \<longrightarrow> minutes (after (TIMER2_OVF_vect s)) = 0)))"
proof -
  define b c d where "b = unat (tenths s)" and "c = unat (seconds s)" and "d = unat (minutes s)"
  have bounds: "b < 10" "c < 60" "d < 60"
    using assms(2-4) by (simp_all add: b_def c_def d_def u8_le_numeral)
  have s: "s\<lparr>no_of_overflows := 0\<rparr> = \<lparr>no_of_overflows = 0, tenths = of_nat b, seconds = of_nat c,
        minutes = of_nat d, secPwr = secPwr s\<rparr>"
    by (simp add: b_def c_def d_def)
  have fields: "tenths s = of_nat b" "seconds s = of_nat c" "minutes s = of_nat d"
    by (simp_all add: b_def c_def d_def)
  have conds: "(tenths s \<le> 8) = (b \<le> 8)" "(tenths s = 9) = (b = 9)"
    "(seconds s < 59) = (c < 59)" "(seconds s = 59) = (c = 59)"
    "(minutes s < 59) = (d < 59)" "(minutes s = 59) = (d = 59)"
    by (simp_all add: b_def c_def d_def u8_le_numeral)
  have "after (TIMER2_OVF_vect s) = fst (count (s\<lparr>no_of_overflows := 0\<rparr>))"
    using isr_fires [OF assms(1)] by simp
  also have "\<dots> =
    (if b = 9 then
       (if c = 59 then
          \<lparr>no_of_overflows = 0, tenths = 0, seconds = 0,
            minutes = (if d = 59 then 0 else of_nat d + 1), secPwr = 0\<rparr>
        else \<lparr>no_of_overflows = 0, tenths = 0, seconds = of_nat c + 1,
            minutes = of_nat d, secPwr = (of_nat c + 1) * (of_nat c + 1)\<rparr>)
     else \<lparr>no_of_overflows = 0, tenths = of_nat b + 1, seconds = of_nat c,
            minutes = of_nat d, secPwr = secPwr s\<rparr>)"
    unfolding s using bounds by (simp add: count_closed)
  finally show ?thesis
    unfolding conds by (simp add: fields)
qed

theorem counters_cascade_witness:
  "6 \<le> no_of_overflows (clock_run 5) + 1 \<and>
   tenths (clock_run 5) \<le> 9 \<and> seconds (clock_run 5) \<le> 59 \<and> minutes (clock_run 5) \<le> 59 \<and>
   tenths (clock_run 5) \<le> 8 \<and>
   tenths (after (TIMER2_OVF_vect (clock_run 5))) = 1 \<and>
   6 \<le> no_of_overflows (clock_run 215999) + 1 \<and>
   tenths (clock_run 215999) = 9 \<and> seconds (clock_run 215999) = 59 \<and>
   minutes (clock_run 215999) = 59 \<and>
   tenths (after (TIMER2_OVF_vect (clock_run 215999))) = 0 \<and>
   seconds (after (TIMER2_OVF_vect (clock_run 215999))) = 0 \<and>
   minutes (after (TIMER2_OVF_vect (clock_run 215999))) = 0"
proof -
  have a: "clock_run 5 = \<lparr>no_of_overflows = 5, tenths = 0, seconds = 0, minutes = 0, secPwr = 0\<rparr>"
    by (simp add: clock_run_closed)
  have b: "clock_run 215999 =
      \<lparr>no_of_overflows = 5, tenths = 9, seconds = 59, minutes = 59, secPwr = 3481\<rparr>"
    by (simp add: clock_run_closed)
  have pa: "6 \<le> no_of_overflows (clock_run 5) + 1" "tenths (clock_run 5) \<le> 9"
    "seconds (clock_run 5) \<le> 59" "minutes (clock_run 5) \<le> 59" "tenths (clock_run 5) \<le> 8"
    by (simp_all add: a)
  have pb: "6 \<le> no_of_overflows (clock_run 215999) + 1" "tenths (clock_run 215999) \<le> 9"
    "seconds (clock_run 215999) \<le> 59" "minutes (clock_run 215999) \<le> 59"
    "tenths (clock_run 215999) = 9" "seconds (clock_run 215999) = 59"
    "minutes (clock_run 215999) = 59"
    by (simp_all add: b)
  from counters_cascade [OF pa(1-4)] pa(5)
  have "tenths (after (TIMER2_OVF_vect (clock_run 5))) = tenths (clock_run 5) + 1"
    by blast
  then have "tenths (after (TIMER2_OVF_vect (clock_run 5))) = 1"
    by (simp add: a)
  moreover from counters_cascade [OF pb(1-4)] pb(5-7)
  have "tenths (after (TIMER2_OVF_vect (clock_run 215999))) = 0"
    "seconds (after (TIMER2_OVF_vect (clock_run 215999))) = 0"
    "minutes (after (TIMER2_OVF_vect (clock_run 215999))) = 0"
    by blast+
  ultimately show ?thesis
    using pa pb by blast
qed

text \<open>
  C5. The claim holds that the minutes field is the value padded to two digits.
  The code pads whenever \<open>minutes < 60\<close>: invocation 36000 from power-on steps
  the counters to \<open>minutes = 10\<close> and writes the three characters \<open>010\<close>
  before the colon.
\<close>

theorem minutes_field_at_ten_minutes:
  "clock_run 35999 =
     \<lparr>no_of_overflows = 5, tenths = 9, seconds = 59, minutes = 9, secPwr = 3481\<rparr> \<and>
   after (TIMER2_OVF_vect (clock_run 35999)) =
     \<lparr>no_of_overflows = 0, tenths = 0, seconds = 0, minutes = 10, secPwr = 0\<rparr> \<and>
   written (lcd (TIMER2_OVF_vect (clock_run 35999))) =
     [((1, 0), ''010:00.0''), ((12, 0), ''0'')]"
proof -
  have run: "clock_run 35999 =
      \<lparr>no_of_overflows = 5, tenths = 9, seconds = 59, minutes = 9, secPwr = 3481\<rparr>"
    by (simp add: clock_run_closed)
  have "6 \<le> no_of_overflows (clock_run 35999) + 1"
    by (simp add: run)
  note fires = isr_fires [OF this]
  have cnt: "fst (count ((clock_run 35999)\<lparr>no_of_overflows := 0\<rparr>)) =
      \<lparr>no_of_overflows = 0, tenths = 0, seconds = 0, minutes = 10, secPwr = 0\<rparr>"
    using count_closed [of 9 59 9 0 3481] by (simp add: run)
  have "written (fst (render
      \<lparr>no_of_overflows = 0, tenths = 0, seconds = 0, minutes = 10, secPwr = 0\<rparr>)) =
      [((1, 0), ''010:00.0''), ((12, 0), ''0'')]"
    by (simp add: render_def Let_def c_str_small)
  then have "written (lcd (TIMER2_OVF_vect (clock_run 35999))) =
      [((1, 0), ''010:00.0''), ((12, 0), ''0'')]"
    by (simp add: fires cnt)
  moreover have "after (TIMER2_OVF_vect (clock_run 35999)) =
      \<lparr>no_of_overflows = 0, tenths = 0, seconds = 0, minutes = 10, secPwr = 0\<rparr>"
    by (simp add: fires cnt)
  ultimately show ?thesis
    using run by blast
qed

text \<open>
  C6, as the claim states it: the timer of the stopwatch handler is given the
  1 s overflow period and the timer of the progress-bar handler 16 ms. It is the
  other way round.
\<close>

theorem timers_swapped_counterexample:
  "\<not> (ovf_period_of (source_of Stopwatch) (main hd44780) = Some OVF_1SEC \<and>
      ovf_period_of (source_of Progress_bar) (main hd44780) = Some OVF_16MS)"
  by (simp add: main_calls ovf_period_of_data)

text \<open>
  C6, amended. main gives the timer whose overflow interrupt runs the stopwatch
  handler (Timer/Counter2) the 16 ms overflow period, and the timer whose
  overflow interrupt runs the progress-bar handler (Timer/Counter1) the 1 s
  period, and enables the overflow interrupt of both.
\<close>

theorem timers_armed:
  "ovf_period_of (source_of Stopwatch) (main k) = Some OVF_16MS \<and>
   ovf_period_of (source_of Progress_bar) (main k) = Some OVF_1SEC \<and>
   Tim_ovf_enable (source_of Stopwatch) \<in> set (main k) \<and>
   Tim_ovf_enable (source_of Progress_bar) \<in> set (main k) \<and>
   ISR (source_of Stopwatch) s =
     (s\<lparr>clock := after (TIMER2_OVF_vect (clock s))\<rparr>, lcd (TIMER2_OVF_vect (clock s))) \<and>
   ISR (source_of Progress_bar) s =
     (s\<lparr>bar := fst (TIMER1_OVF_vect (bar s))\<rparr>, snd (TIMER1_OVF_vect (bar s)))"
  by (simp add: main_calls ovf_period_of_data Let_def split: prod.splits)

text \<open>
  C7. From the reset state, invocation \<open>k\<close> of the progress-bar handler
  (\<open>k\<close> counted from 1, \<open>bar_run (k - 1)\<close> being the state before it) sets
  \<open>prgrsBarLgth\<close> to \<open>(k - 1) mod 5 + 1\<close>; its display calls are the
  positioning at column 0 of row 1 followed by that many writes of the
  character 0xFF, and no other call. Over the first seven invocations the
  lengths are 1, 2, 3, 4, 5, 1, 2.
\<close>

theorem progress_bar_cycle:
  "(1 \<le> k \<longrightarrow>
      unat (prgrsBarLgth (fst (TIMER1_OVF_vect (bar_run (k - 1))))) = (k - 1) mod 5 + 1 \<and>
      snd (TIMER1_OVF_vect (bar_run (k - 1))) =
        Lcd_gotoxy 0 1 # replicate ((k - 1) mod 5 + 1) (Lcd_putc (CHR 0xFF))) \<and>
   map (\<lambda>k. unat (prgrsBarLgth (fst (TIMER1_OVF_vect (bar_run (k - 1)))))) [1, 2, 3, 4, 5, 6, 7] =
     [1, 2, 3, 4, 5, 1, 2]"
proof -
  have len: "unat (prgrsBarLgth (fst (TIMER1_OVF_vect (bar_run j)))) = j mod 5 + 1" for j
  proof -
    have "j mod 5 + 1 < 256"
      using mod_less_divisor [of 5 j] by linarith
    from u8_unat_of_nat [OF this] show ?thesis
      unfolding bar_invocation by simp
  qed
  show ?thesis
    unfolding len by (simp add: bar_invocation)
qed

theorem progress_bar_cycle_witness:
  "(1 :: nat) \<le> 7 \<and>
   unat (prgrsBarLgth (fst (TIMER1_OVF_vect (bar_run (7 - 1))))) = 2 \<and>
   snd (TIMER1_OVF_vect (bar_run (7 - 1))) =
     [Lcd_gotoxy 0 1, Lcd_putc (CHR 0xFF), Lcd_putc (CHR 0xFF)]"
proof -
  have "(1 :: nat) \<le> 7"
    by simp
  with progress_bar_cycle [of 7]
  have "unat (prgrsBarLgth (fst (TIMER1_OVF_vect (bar_run (7 - 1))))) = (7 - 1) mod 5 + 1"
    and "snd (TIMER1_OVF_vect (bar_run (7 - 1))) =
        Lcd_gotoxy 0 1 # replicate ((7 - 1) mod 5 + 1) (Lcd_putc (CHR 0xFF))"
    by blast+
  then show ?thesis
    by (simp add: numeral_2_eq_2)
qed

text \<open>
  C8. The rendering of minutes 5, seconds 7, tenths 3 positions the cursor at
  column 1 of row 0 and writes \<open>05:07.3\<close> there; that of minutes 0, seconds
  0, tenths 0 writes \<open>00:00.0\<close>; whatever \<open>no_of_overflows\<close> and \<open>secPwr\<close>
  are (the text of \<open>secPwr\<close> goes to column 12). So do the invocations of
  the handler that step the counters to these values. The conversions of 5, 7,
  3 and 0 fit \<^verbatim>\<open>string\<close>.
\<close>

theorem render_examples:
  "written (fst (render \<lparr>no_of_overflows = n, tenths = 3, seconds = 7, minutes = 5, secPwr = p\<rparr>)) =
     [((1, 0), ''05:07.3''), ((12, 0), c_str (itoa (sint p)))] \<and>
   written (fst (render \<lparr>no_of_overflows = n, tenths = 0, seconds = 0, minutes = 0, secPwr = p\<rparr>)) =
     [((1, 0), ''00:00.0''), ((12, 0), c_str (itoa (sint p)))] \<and>
   written (lcd (TIMER2_OVF_vect
       \<lparr>no_of_overflows = 5, tenths = 2, seconds = 7, minutes = 5, secPwr = 49\<rparr>)) =
     [((1, 0), ''05:07.3''), ((12, 0), ''49'')] \<and>
   written (lcd (TIMER2_OVF_vect
       \<lparr>no_of_overflows = 5, tenths = 9, seconds = 59, minutes = 59, secPwr = 3481\<rparr>)) =
     [((1, 0), ''00:00.0''), ((12, 0), ''0'')] \<and>
   \<not> overruns (itoa (uint (5 :: uint8_t))) \<and> \<not> overruns (itoa (uint (7 :: uint8_t))) \<and>
   \<not> overruns (itoa (uint (3 :: uint8_t))) \<and> \<not> overruns (itoa (uint (0 :: uint8_t)))"
proof -
  have r: "written (fst (render \<lparr>no_of_overflows = n, tenths = 3, seconds = 7, minutes = 5, secPwr = p\<rparr>)) =
     [((1, 0), ''05:07.3''), ((12, 0), c_str (itoa (sint p)))]"
    "written (fst (render \<lparr>no_of_overflows = n, tenths = 0, seconds = 0, minutes = 0, secPwr = p\<rparr>)) =
     [((1, 0), ''00:00.0''), ((12, 0), c_str (itoa (sint p)))]" for n p
    by (simp_all add: render_def Let_def c_str_small)
  have a: "after (TIMER2_OVF_vect
       \<lparr>no_of_overflows = 5, tenths = 2, seconds = 7, minutes = 5, secPwr = 49\<rparr>) =
       \<lparr>no_of_overflows = 0, tenths = 3, seconds = 7, minutes = 5, secPwr = 49\<rparr>"
    using isr_after [of 5 "of_nat 2" "of_nat 7" "of_nat 5" 49] count_closed [of 2 7 5 0 49]
    by simp
  have b: "after (TIMER2_OVF_vect
       \<lparr>no_of_overflows = 5, tenths = 9, seconds = 59, minutes = 59, secPwr = 3481\<rparr>) =
       \<lparr>no_of_overflows = 0, tenths = 0, seconds = 0, minutes = 0, secPwr = 0\<rparr>"
    using isr_after [of 5 "of_nat 9" "of_nat 59" "of_nat 59" 3481] count_closed [of 9 59 59 0 3481]
    by simp
  have fires: "lcd (TIMER2_OVF_vect s) = fst (render (after (TIMER2_OVF_vect s)))"
    if "no_of_overflows s = 5" for s
    using isr_fires [of s] that by simp
  have fit: "\<not> overruns (itoa (uint (5 :: uint8_t)))" "\<not> overruns (itoa (uint (7 :: uint8_t)))"
    "\<not> overruns (itoa (uint (3 :: uint8_t)))" "\<not> overruns (itoa (uint (0 :: uint8_t)))"
    by (simp_all add: overruns_def string_size_def itoa_small)
  show ?thesis
    using fit by (simp add: fires a b r c_str_small)
qed

text \<open>
  C9, as the claim states it: the bytes sent to the glyph memory are 4 glyphs of
  8 rows, 32 bytes. They are 48.
\<close>

theorem glyph_upload_32_bytes_counterexample:
  "\<not> (length (data_bytes (main hd44780)) = 4 * 8)"
  by (simp add: main_data_bytes customChar_length)

text \<open>
  C9, amended. Between the command that selects the glyph memory and the command
  that selects the text memory, main sends the \<open>N_CHARS * 8 = 48\<close> bytes of
  \<open>customChar\<close>: the 32 rows of the four patterns, then 16 zero rows. The
  command in effect when \<^verbatim>\<open>sei()\<close> is called, the last call of main, is the
  one that selects the text memory.
\<close>

theorem glyph_upload_then_text_mode:
  "main k =
     [Lcd_init (LCD_DISP_ON k), Lcd_command (push_bit (LCD_CGRAM k) 1)] @
     map Lcd_data customChar @
     [Lcd_command (push_bit (LCD_DDRAM k) 1),
      Lcd_gotoxy 7 1,
      Lcd_putc (CHR 0x00), Lcd_putc (CHR 0x01), Lcd_putc (CHR 0x02), Lcd_putc (CHR 0x03),
      Tim_ovf TIM1 OVF_1SEC, Tim_ovf_enable TIM1,
      Tim_ovf TIM2 OVF_16MS, Tim_ovf_enable TIM2,
      Sei] \<and>
   data_bytes (main k) = customChar \<and>
   length customChar = N_CHARS * 8 \<and> N_CHARS * 8 = 48 \<and>
   customChar = customChar_init @ replicate 16 0 \<and> length customChar_init = 4 * 8 \<and>
   command_at_sei None (main k) = Some (push_bit (LCD_DDRAM k) 1)"
proof -
  have "command_at_sei None (main k) = Some (push_bit (LCD_DDRAM k) 1)"
    by (simp add: main_calls command_at_sei_data)
  moreover have "customChar = customChar_init @ replicate 16 0"
    by (simp add: customChar_def customChar_init_def N_CHARS_def)
  moreover have "length customChar_init = 4 * 8"
    by (simp add: customChar_init_def)
  moreover have "N_CHARS * 8 = 48"
    by (simp add: N_CHARS_def)
  ultimately show ?thesis
    using main_calls [of k] main_data_bytes [of k] customChar_length by simp
qed

text \<open>
  C10. From the zero-initialised state the switch on \<open>seconds\<close> never takes
  its \<open>case 0\<close>. Whenever it is executed, the value it scrutinises is the
  increment of a \<open>seconds\<close> that was at most 59, so it lies between 1 and 60,
  and the label taken is the one for that value.
\<close>

theorem switch_case_0_unreachable:
  "taken (TIMER2_OVF_vect (clock_run n)) \<noteq> Some Case_0 \<and>
   (taken (TIMER2_OVF_vect (clock_run n)) \<noteq> None \<longrightarrow>
      taken (TIMER2_OVF_vect (clock_run n)) =
        Some (switch_seconds (seconds (clock_run n) + 1)) \<and>
      seconds (clock_run n) \<le> 59 \<and>
      1 \<le> seconds (clock_run n) + 1 \<and> seconds (clock_run n) + 1 \<le> 60)"
proof -
  define c where "c = n div 60 mod 60"
  have c: "c < 60"
    by (simp add: c_def)
  have sec: "seconds (clock_run n) = of_nat c"
    by (simp add: c_def clock_run_seconds)
  have "seconds (clock_run n) \<le> 59"
    using clock_run_in_range [of n] by simp
  moreover have "1 \<le> seconds (clock_run n) + 1" "seconds (clock_run n) + 1 \<le> 60"
    using c u8_of_nat_le [of 1 "Suc c"] u8_of_nat_le [of "Suc c" 60]
    by (simp_all add: sec add.commute)
  moreover have "taken (TIMER2_OVF_vect (clock_run n)) \<noteq> Some Case_0"
    by (simp add: clock_run_taken)
  ultimately show ?thesis
    by (simp add: isr_taken_any)
qed

theorem switch_case_0_unreachable_witness:
  "taken (TIMER2_OVF_vect (clock_run 3599)) \<noteq> None \<and>
   taken (TIMER2_OVF_vect (clock_run 3599)) = Some Case_60 \<and>
   seconds (clock_run 3599) + 1 = 60 \<and>
   taken (TIMER2_OVF_vect (clock_run 59)) = Some Default \<and>
   seconds (clock_run 59) + 1 = 1"
proof -
  have a: "clock_run 3599 =
      \<lparr>no_of_overflows = 5, tenths = 9, seconds = 59, minutes = 0, secPwr = 3481\<rparr>"
    by (simp add: clock_run_closed)
  have b: "clock_run 59 =
      \<lparr>no_of_overflows = 5, tenths = 9, seconds = 0, minutes = 0, secPwr = 0\<rparr>"
    by (simp add: clock_run_closed)
  have ta: "taken (TIMER2_OVF_vect (clock_run 3599)) \<noteq> None"
    and tb: "taken (TIMER2_OVF_vect (clock_run 59)) \<noteq> None"
    by (simp_all add: clock_run_taken)
  have sa: "seconds (clock_run 3599) + 1 = 60" and sb: "seconds (clock_run 59) + 1 = 1"
    by (simp_all add: a b)
  from switch_case_0_unreachable [of 3599] ta
  have "taken (TIMER2_OVF_vect (clock_run 3599)) =
      Some (switch_seconds (seconds (clock_run 3599) + 1))"
    by blast
  then have "taken (TIMER2_OVF_vect (clock_run 3599)) = Some Case_60"
    by (simp add: sa switch_seconds_def)
  moreover from switch_case_0_unreachable [of 59] tb
  have "taken (TIMER2_OVF_vect (clock_run 59)) =
      Some (switch_seconds (seconds (clock_run 59) + 1))"
    by blast
  then have "taken (TIMER2_OVF_vect (clock_run 59)) = Some Default"
    by (simp add: sb switch_seconds_def)
  ultimately show ?thesis
    using ta sa sb by blast
qed

end
